theory Spec2Isabelle
  imports Main
begin

section \<open>Data model of the statement binder (stmt\_bound.go)\<close>

text \<open>
  A placeholder descriptor is one entry of the \<^verbatim>\<open>[]any\<close> that rendering a query returns.
  The binder distinguishes three dynamic types: \<^verbatim>\<open>namedArg\<close> (a string), \<^verbatim>\<open>named\<close>
  (a struct with a list \<^verbatim>\<open>names\<close>) and everything else, which is a positional value.
\<close>

datatype 'x arg = NamedArg string | Named "string list" | Positional 'x

text \<open>
  Outcomes that are not a normal result. The three panics are the ones of Go's reflect
  package on the calls \<^verbatim>\<open>val.Field(index)\<close> and \<^verbatim>\<open>field.Interface()\<close>.
\<close>

datatype panic = FieldIndexOutOfRange | FieldOfNonStruct | InterfaceOfUnexported

datatype 'x error =
    ObjectIsNil
  | MissingArgError string
  | NamedArgRequiredError "'x arg"
  | OtherError string
  | Panic panic

text \<open>
  The reflected argument value: a struct is the list of its fields in declared order,
  a pointer is nil or points to a value, anything else is a basic value.
\<close>

datatype 'v sfield = Exported 'v | Unexported 'v

text \<open>Two kinds of Go values, for field values in concrete runs.\<close>

datatype goval = GoInt int | GoString string

datatype 'v rvalue = Struct "'v sfield list" | Pointer "'v rvalue option" | Basic 'v

record structBinder =
  args :: "string list"
  fields' :: "string list"

subsection \<open>reflect.Value.Field and reflect.Value.Interface\<close>

fun Field_val :: "'v rvalue \<Rightarrow> nat \<Rightarrow> 'x error + 'v sfield" where
  "Field_val (Struct fs) i =
     (if i < length fs then Inr (fs ! i) else Inl (Panic FieldIndexOutOfRange))"
| "Field_val (Pointer p) i = Inl (Panic FieldOfNonStruct)"
| "Field_val (Basic v) i = Inl (Panic FieldOfNonStruct)"

fun Interface_val :: "'v sfield \<Rightarrow> 'x error + 'v" where
  "Interface_val (Exported v) = Inr v"
| "Interface_val (Unexported v) = Inl (Panic InterfaceOfUnexported)"

subsection \<open>toArgs\<close>

text \<open>
  The inner loop of \<^verbatim>\<open>toArgs\<close> over \<^verbatim>\<open>b.fields\<close>. \<open>None\<close>: the loop ended without a
  match. \<open>Some r\<close>: a field name matched and \<open>r\<close> is the outcome of
  \<^verbatim>\<open>val.Field(index).Interface()\<close>, where \<open>index\<close> is the index of the outer loop.
\<close>

fun toArgs_fieldLoop ::
  "string list \<Rightarrow> string \<Rightarrow> 'v rvalue \<Rightarrow> nat \<Rightarrow> ('x error + 'v) option" where
  "toArgs_fieldLoop [] argName val index = None"
| "toArgs_fieldLoop (fieldName # rest) argName val index =
     (if fieldName = argName
      then Some (case Field_val val index of
                   Inl e \<Rightarrow> Inl e
                 | Inr field \<Rightarrow> Interface_val field)
      else toArgs_fieldLoop rest argName val index)"

text \<open>
  The outer loop over \<^verbatim>\<open>b.args\<close>, from position \<open>index\<close>; \<open>values\<close> is the slice
  made by \<^verbatim>\<open>make([]any, len(b.args))\<close>, whose entries start as nil (\<open>None\<close>).
\<close>

fun toArgs_argLoop ::
  "structBinder \<Rightarrow> 'v rvalue \<Rightarrow> nat \<Rightarrow> string list \<Rightarrow> 'v option list
     \<Rightarrow> 'x error + 'v option list" where
  "toArgs_argLoop b val index [] values = Inr values"
| "toArgs_argLoop b val index (argName # rest) values =
     (case toArgs_fieldLoop (fields' b) argName val index of
        None \<Rightarrow> Inl (MissingArgError argName)
      | Some (Inl e) \<Rightarrow> Inl e
      | Some (Inr v) \<Rightarrow> toArgs_argLoop b val (Suc index) rest (values[index := Some v]))"

definition toArgs :: "structBinder \<Rightarrow> 'v rvalue \<Rightarrow> 'x error + 'v option list" where
  "toArgs b arg =
     (case arg of
        Pointer None \<Rightarrow> Inl ObjectIsNil
      | Pointer (Some val) \<Rightarrow>
          toArgs_argLoop b val 0 (args b) (replicate (length (args b)) None)
      | _ \<Rightarrow> toArgs_argLoop b arg 0 (args b) (replicate (length (args b)) None))"

subsection \<open>makeStructBinder\<close>

text \<open>The two type assertions of the first loop: the name a descriptor carries, if any.\<close>

fun placeholderName :: "'x arg \<Rightarrow> string option" where
  "placeholderName (NamedArg name) = Some name"
| "placeholderName (Named names) =
     (if length names = 1 then Some (names ! 0) else None)"
| "placeholderName (Positional x) = None"

fun argPositions_loop :: "'x arg list \<Rightarrow> 'x error + string list" where
  "argPositions_loop [] = Inr []"
| "argPositions_loop (arg # rest) =
     (case placeholderName arg of
        None \<Rightarrow> Inl (NamedArgRequiredError arg)
      | Some name \<Rightarrow>
          (case argPositions_loop rest of
             Inl e \<Rightarrow> Inl e
           | Inr names \<Rightarrow> Inr (name # names)))"

text \<open>The inner loop of the check: is some entry of \<open>fieldPositions\<close> equal to \<open>name\<close>?\<close>

fun hasField :: "string list \<Rightarrow> string \<Rightarrow> bool" where
  "hasField [] name = False"
| "hasField (field # rest) name = (if field = name then True else hasField rest name)"

fun checkPositions :: "string list \<Rightarrow> string list \<Rightarrow> 'x error option" where
  "checkPositions fieldPositions [] = None"
| "checkPositions fieldPositions (name # rest) =
     (if hasField fieldPositions name then checkPositions fieldPositions rest
      else Some (MissingArgError name))"

text \<open>
  \<open>fieldPositions\<close> is the list \<^verbatim>\<open>mappings.GetMappings(reflect.TypeOf(x)).All\<close> of the
  argument type: the field mapper is not part of these sources, so its result is a
  parameter.
\<close>

definition makeStructBinder :: "string list \<Rightarrow> 'x arg list \<Rightarrow> 'x error + structBinder" where
  "makeStructBinder fieldPositions as =
     (case argPositions_loop as of
        Inl e \<Rightarrow> Inl e
      | Inr argPositions \<Rightarrow>
          (case checkPositions fieldPositions argPositions of
             Some e \<Rightarrow> Inl e
           | None \<Rightarrow> Inr \<lparr>args = argPositions, fields' = fieldPositions\<rparr>))"

section \<open>Bound statements (stmt\_bound.go)\<close>

text \<open>
  The interface \<^verbatim>\<open>Statement\<close> has the two implementations the source names: \<^verbatim>\<open>stdStmt\<close>,
  which wraps a \<^verbatim>\<open>*sql.Stmt\<close> (\<open>None\<close> is the nil pointer), and \<^verbatim>\<open>errStmt\<close>, which wraps
  an error. An executor is a transaction or something else.
\<close>

datatype 'h Statement = StdStmt "'h option" | ErrStmt string

datatype ('tx, 'ex) Executor = TxExecutor 'tx | OtherExecutor 'ex

record ('h, 'tx, 'ex) Stmt =
  stmt :: "'h Statement"
  exec :: "('tx, 'ex) Executor"

record ('h, 'tx, 'ex) BoundStmt =
  bound_stmt :: "('h, 'tx, 'ex) Stmt"
  stmt_binder :: structBinder

text \<open>
  \<^verbatim>\<open>QueryStmt\<close> embeds \<^verbatim>\<open>Stmt\<close> (its fields \<^verbatim>\<open>stmt\<close> and \<^verbatim>\<open>exec\<close> are promoted) and
  \<^verbatim>\<open>BoundQueryStmt\<close> embeds \<^verbatim>\<open>QueryStmt\<close>; \<open>settings\<close> stands for the mapper and the
  execution settings, which stmt\_bound.go never reads.
\<close>

record ('h, 'tx, 'ex, 'q) QueryStmt = "('h, 'tx, 'ex) Stmt" +
  settings :: 'q

record ('h, 'tx, 'ex, 'q) BoundQueryStmt = "('h, 'tx, 'ex, 'q) QueryStmt" +
  query_binder :: structBinder

text \<open>The type assertion \<^verbatim>\<open>std, ok := x.(stdStmt)\<close>: on failure \<open>std\<close> is the zero value.\<close>

fun assert_stdStmt :: "'h Statement \<Rightarrow> 'h option \<times> bool" where
  "assert_stdStmt (StdStmt h) = (h, True)"
| "assert_stdStmt (ErrStmt e) = (None, False)"

text \<open>
  \<open>StmtContext tx h\<close> stands for \<^verbatim>\<open>tx.wrapped.StmtContext(ctx, h)\<close> of the database
  library.
\<close>

definition BoundStmt_InTx ::
  "('tx \<Rightarrow> 'h option \<Rightarrow> 'h option) \<Rightarrow> 'tx \<Rightarrow> ('h, 'tx, 'ex) BoundStmt
     \<Rightarrow> ('h, 'tx, 'ex) BoundStmt" where
  "BoundStmt_InTx StmtContext tx s =
     (let stmt0 = ErrStmt ''stmt is not an stdStmt'';
          (std, ok) = assert_stdStmt (stmt (bound_stmt s));
          stmt1 = (if \<not> ok then StdStmt (StmtContext tx std) else stmt0)
      in s\<lparr>bound_stmt := (bound_stmt s)\<lparr>stmt := stmt1, exec := TxExecutor tx\<rparr>\<rparr>)"

definition BoundQueryStmt_InTx ::
  "('tx \<Rightarrow> 'h option \<Rightarrow> 'h option) \<Rightarrow> 'tx \<Rightarrow> ('h, 'tx, 'ex, 'q) BoundQueryStmt
     \<Rightarrow> ('h, 'tx, 'ex, 'q) BoundQueryStmt" where
  "BoundQueryStmt_InTx StmtContext tx s =
     (let stmt0 = ErrStmt ''stmt is not an stdStmt'';
          (std, ok) = assert_stdStmt (stmt s);
          stmt1 = (if \<not> ok then StdStmt (StmtContext tx std) else stmt0)
      in s\<lparr>stmt := stmt1, exec := TxExecutor tx\<rparr>)"

text \<open>
  The operations of the underlying statement (\<^verbatim>\<open>Stmt.Exec\<close>, \<^verbatim>\<open>QueryStmt.One\<close>,
  \<^verbatim>\<open>QueryStmt.All\<close>, \<^verbatim>\<open>QueryStmt.Cursor\<close>) are parameters: each takes the statement, the
  positional values and the state \<open>'w\<close> of the database side, and returns its result or
  error with the new state. A state that comes back unchanged means that nothing was
  invoked.
\<close>

definition BoundStmt_Exec ::
  "(('h, 'tx, 'ex) Stmt \<Rightarrow> 'v option list \<Rightarrow> 'w \<Rightarrow> ('x error + 'r) \<times> 'w)
     \<Rightarrow> ('h, 'tx, 'ex) BoundStmt \<Rightarrow> 'v rvalue \<Rightarrow> 'w \<Rightarrow> ('x error + 'r) \<times> 'w" where
  "BoundStmt_Exec Stmt_Exec s arg w =
     (case toArgs (stmt_binder s) arg of
        Inl err \<Rightarrow> (Inl err, w)
      | Inr as \<Rightarrow> Stmt_Exec (bound_stmt s) as w)"

definition BoundQueryStmt_One ::
  "(('h, 'tx, 'ex, 'q) QueryStmt \<Rightarrow> 'v option list \<Rightarrow> 'w \<Rightarrow> ('x error + 't) \<times> 'w)
     \<Rightarrow> ('h, 'tx, 'ex, 'q) BoundQueryStmt \<Rightarrow> 'v rvalue \<Rightarrow> 'w \<Rightarrow> ('x error + 't) \<times> 'w" where
  "BoundQueryStmt_One QueryStmt_One s arg w =
     (case toArgs (query_binder s) arg of
        Inl err \<Rightarrow> (Inl err, w)
      | Inr as \<Rightarrow> QueryStmt_One (QueryStmt.truncate s) as w)"

definition BoundQueryStmt_All ::
  "(('h, 'tx, 'ex, 'q) QueryStmt \<Rightarrow> 'v option list \<Rightarrow> 'w \<Rightarrow> ('x error + 't list) \<times> 'w)
     \<Rightarrow> ('h, 'tx, 'ex, 'q) BoundQueryStmt \<Rightarrow> 'v rvalue \<Rightarrow> 'w
     \<Rightarrow> ('x error + 't list) \<times> 'w" where
  "BoundQueryStmt_All QueryStmt_All s arg w =
     (case toArgs (query_binder s) arg of
        Inl err \<Rightarrow> (Inl err, w)
      | Inr as \<Rightarrow> QueryStmt_All (QueryStmt.truncate s) as w)"

definition BoundQueryStmt_Cursor ::
  "(('h, 'tx, 'ex, 'q) QueryStmt \<Rightarrow> 'v option list \<Rightarrow> 'w \<Rightarrow> ('x error + 'c) \<times> 'w)
     \<Rightarrow> ('h, 'tx, 'ex, 'q) BoundQueryStmt \<Rightarrow> 'v rvalue \<Rightarrow> 'w \<Rightarrow> ('x error + 'c) \<times> 'w" where
  "BoundQueryStmt_Cursor QueryStmt_Cursor s arg w =
     (case toArgs (query_binder s) arg of
        Inl err \<Rightarrow> (Inl err, w)
      | Inr as \<Rightarrow> QueryStmt_Cursor (QueryStmt.truncate s) as w)"

section \<open>Rendering a SELECT query (SelectQuery.WriteSQL)\<close>


text \<open>The value handed to \<^verbatim>\<open>bob.ExpressIf\<close> as its parameter \<^verbatim>\<open>e any\<close>.\<close>

datatype 'e clause =
    With_clause "'e list"
  | Select_clause 'e
  | From_clause 'e
  | Where_clause "'e list"
  | GroupBy_clause "'e list"
  | Having_clause "'e list"
  | Windows_clause "'e list"
  | Combine_clause "'e option"
  | OrderBy_clause "'e list"
  | Limit_clause "'e option"
  | Offset_clause "'e option"

text \<open>
  \<^verbatim>\<open>bob.ExpressIf(w, d, start, e, cond, prefix, suffix)\<close> is not part of these sources: it
  is the parameter \<open>ExpressIf\<close>, which takes the text written to \<^verbatim>\<open>w\<close> so far and returns
  the placeholder descriptors or an error, with the text after the call.
\<close>

type_synonym ('d, 'e, 'x) ExpressIf =
  "string \<Rightarrow> 'd \<Rightarrow> int \<Rightarrow> 'e clause \<Rightarrow> bool \<Rightarrow> string \<Rightarrow> string
     \<Rightarrow> ('x error + 'x arg list) \<times> string"



subsection \<open>The rendering order as the specification words it\<close>


fun render_in_order ::
  "('d, 'e, 'x) ExpressIf \<Rightarrow> 'd \<Rightarrow> int \<Rightarrow> ('e clause \<times> bool \<times> string \<times> string) list
     \<Rightarrow> 'x arg list \<Rightarrow> string \<Rightarrow> ('x error + 'x arg list) \<times> string" where
  "render_in_order ExpressIf d start [] acc w = (Inr acc, w)"
| "render_in_order ExpressIf d start ((e, cond, prefix, suffix) # rest) acc w =
     (case ExpressIf w d (start + int (length acc)) e cond prefix suffix of
        (Inl err, w') \<Rightarrow> (Inl err, w')
      | (Inr as, w') \<Rightarrow> render_in_order ExpressIf d start rest (acc @ as) w')"

section \<open>Properties\<close>

lemma hasField_iff: "hasField fs n \<longleftrightarrow> n \<in> set fs"
  by (induction fs) auto

subsection \<open>Construction of the binder\<close>

lemma argPositions_loop_first_anonymous:
  "find (\<lambda>a. placeholderName a = None) as = Some a \<Longrightarrow>
   argPositions_loop as = Inl (NamedArgRequiredError a)"
  by (induction as) (auto split: option.splits)

lemma argPositions_loop_named:
  "map placeholderName as = map Some names \<Longrightarrow> argPositions_loop as = Inr names"
  by (induction as arbitrary: names) auto

lemma checkPositions_first_missing:
  "find (\<lambda>n. n \<notin> set fieldPositions) names = Some n \<Longrightarrow>
   checkPositions fieldPositions names = Some (MissingArgError n)"
  by (induction names) (auto simp: hasField_iff split: if_splits)

lemma checkPositions_None_iff:
  "checkPositions fieldPositions names = None \<longleftrightarrow> set names \<subseteq> set fieldPositions"
  by (induction names) (auto simp: hasField_iff)

text \<open>
  C4: when the placeholder list holds at least one descriptor without a name,
  \<^verbatim>\<open>makeStructBinder\<close> fails with \<^verbatim>\<open>NamedArgRequiredError\<close> carrying the first such
  descriptor, whatever the other placeholders and the fields of the argument type are;
  no binder is returned.
\<close>

theorem makeStructBinder_anonymous:
  assumes "\<exists>a \<in> set as. placeholderName a = None"
  shows "\<exists>a \<in> set as. placeholderName a = None
           \<and> find (\<lambda>a. placeholderName a = None) as = Some a
           \<and> makeStructBinder fieldPositions as = Inl (NamedArgRequiredError a)"
proof -
  from assms obtain a where f: "find (\<lambda>a. placeholderName a = None) as = Some a"
    by (cases "find (\<lambda>a. placeholderName a = None) as") (auto simp: find_None_iff)
  then have "a \<in> set as" "placeholderName a = None"
    by (auto simp: find_Some_iff)
  moreover have "makeStructBinder fieldPositions as = Inl (NamedArgRequiredError a)"
    using argPositions_loop_first_anonymous [OF f] by (simp add: makeStructBinder_def)
  ultimately show ?thesis using f by blast
qed

theorem makeStructBinder_anonymous_witness:
  "(\<exists>a \<in> set [NamedArg ''id'', Positional (5::int), NamedArg ''nope''].
      placeholderName a = None)
   \<and> makeStructBinder [''name'', ''id''] [NamedArg ''id'', Positional (5::int), NamedArg ''nope'']
       = Inl (NamedArgRequiredError (Positional 5))"
proof -
  have h: "\<exists>a \<in> set [NamedArg ''id'', Positional (5::int), NamedArg ''nope''].
             placeholderName a = None"
    by simp
  show ?thesis
    using h makeStructBinder_anonymous [OF h, of "[''name'', ''id'']"] by simp
qed

text \<open>
  C5: when every placeholder carries a name and some name equals no field name of the
  argument type (equality of strings), \<^verbatim>\<open>makeStructBinder\<close> fails with \<^verbatim>\<open>MissingArgError\<close>
  carrying the first such name in placeholder order.
\<close>

theorem makeStructBinder_missing:
  assumes "map placeholderName as = map Some names"
    and "find (\<lambda>n. n \<notin> set fieldPositions) names = Some n"
  shows "makeStructBinder fieldPositions as = Inl (MissingArgError n)"
  by (simp add: makeStructBinder_def argPositions_loop_named [OF assms(1)]
        checkPositions_first_missing [OF assms(2)])

theorem makeStructBinder_missing_witness:
  "map placeholderName [NamedArg ''id'', Named [''ID''], NamedArg ''missing'' :: unit arg]
     = map Some [''id'', ''ID'', ''missing'']
   \<and> find (\<lambda>n. n \<notin> set [''name'', ''id'']) [''id'', ''ID'', ''missing''] = Some ''ID''
   \<and> makeStructBinder [''name'', ''id'']
        [NamedArg ''id'', Named [''ID''], NamedArg ''missing'' :: unit arg]
       = Inl (MissingArgError ''ID'')"
proof -
  have h1: "map placeholderName [NamedArg ''id'', Named [''ID''], NamedArg ''missing'' :: unit arg]
              = map Some [''id'', ''ID'', ''missing'']"
    by simp
  have h2: "find (\<lambda>n. n \<notin> set [''name'', ''id'']) [''id'', ''ID'', ''missing''] = Some ''ID''"
    by simp
  show ?thesis
    using h1 h2 makeStructBinder_missing [OF h1 h2] by simp
qed

text \<open>
  C3, as the code has it: when every placeholder carries a name and every name is a field
  name of the argument type, \<^verbatim>\<open>makeStructBinder\<close> succeeds; the binder's \<^verbatim>\<open>args\<close> are the
  placeholder names in placeholder order (as many as there are placeholders) and its
  \<^verbatim>\<open>fields\<close> are the whole field-name list of the argument type.
\<close>

theorem makeStructBinder_ok:
  assumes "map placeholderName as = map Some names"
    and "set names \<subseteq> set fieldPositions"
  shows "makeStructBinder fieldPositions as = Inr \<lparr>args = names, fields' = fieldPositions\<rparr>
         \<and> length names = length as"
proof -
  have "length names = length as"
    using assms(1) by (metis length_map)
  then show ?thesis
    by (simp add: makeStructBinder_def argPositions_loop_named [OF assms(1)]
          checkPositions_None_iff [THEN iffD2, OF assms(2)])
qed

theorem makeStructBinder_ok_witness:
  "map placeholderName [NamedArg ''id'', Named [''name''], NamedArg ''id'' :: unit arg]
     = map Some [''id'', ''name'', ''id'']
   \<and> set [''id'', ''name'', ''id''] \<subseteq> set [''name'', ''id'']
   \<and> makeStructBinder [''name'', ''id'']
        [NamedArg ''id'', Named [''name''], NamedArg ''id'' :: unit arg]
       = Inr \<lparr>args = [''id'', ''name'', ''id''], fields' = [''name'', ''id'']\<rparr>"
proof -
  have h1: "map placeholderName [NamedArg ''id'', Named [''name''], NamedArg ''id'' :: unit arg]
              = map Some [''id'', ''name'', ''id'']"
    by simp
  have h2: "set [''id'', ''name'', ''id''] \<subseteq> set [''name'', ''id'']"
    by simp
  show ?thesis
    using h1 h2 makeStructBinder_ok [OF h1 h2] by simp
qed

text \<open>
  C3, as the specification words it, asks that \<^verbatim>\<open>len(binder.fields)\<close> equal the
  placeholder count. For one placeholder \<^verbatim>\<open>id\<close> and an argument type with the fields
  \<^verbatim>\<open>name\<close> and \<^verbatim>\<open>id\<close> the binder holds two field names.
\<close>

theorem makeStructBinder_fields_length_counterexample:
  "makeStructBinder [''name'', ''id''] [NamedArg ''id'' :: unit arg]
     = Inr \<lparr>args = [''id''], fields' = [''name'', ''id'']\<rparr>
   \<and> length (fields' \<lparr>args = [''id''], fields' = [''name'', ''id'']\<rparr>)
       \<noteq> length [NamedArg ''id'' :: unit arg]"
  by (simp add: makeStructBinder_def)

subsection \<open>Extraction of the values\<close>

lemma makeStructBinder_Inr_D:
  "makeStructBinder fieldPositions as = Inr b \<Longrightarrow> set (args b) \<subseteq> set (fields' b)"
  by (auto simp: makeStructBinder_def checkPositions_None_iff split: sum.splits option.splits)

lemma toArgs_fieldLoop_None_iff:
  "toArgs_fieldLoop fs n val i = None \<longleftrightarrow> n \<notin> set fs"
  by (induction fs) auto

lemma toArgs_fieldLoop_error:
  "toArgs_fieldLoop fs n val i = Some (Inl e) \<Longrightarrow> \<exists>p. e = Panic p"
proof (induction fs)
  case Nil
  then show ?case by simp
next
  case (Cons f fs)
  show ?case
  proof (cases "f = n")
    case True
    with Cons.prems show ?thesis
      by (cases val) (auto split: if_splits sum.splits elim: Interface_val.elims)
  next
    case False
    with Cons show ?thesis by simp
  qed
qed

text \<open>
  C6: for every binder, \<^verbatim>\<open>toArgs\<close> on a nil pointer returns the error "object is nil" and
  no result sequence.
\<close>

theorem toArgs_nil_pointer: "toArgs b (Pointer None) = Inl ObjectIsNil"
  by (simp add: toArgs_def)

lemma toArgs_argLoop_not_missing:
  "set rest \<subseteq> set (fields' b) \<Longrightarrow>
   (toArgs_argLoop b (val :: 'v rvalue) i rest vals :: 'x error + 'v option list)
     \<noteq> Inl (MissingArgError n)"
proof (induction rest arbitrary: i vals)
  case Nil
  then show ?case by simp
next
  case (Cons a rest)
  show ?case
  proof (cases "toArgs_fieldLoop (fields' b) a val i :: ('x error + 'v) option")
    case None
    with Cons.prems show ?thesis by (simp add: toArgs_fieldLoop_None_iff)
  next
    case (Some r)
    show ?thesis
    proof (cases r)
      case (Inl e)
      with Some obtain p where "e = Panic p"
        using toArgs_fieldLoop_error by blast
      with Some Inl show ?thesis by simp
    next
      case (Inr v)
      with Some Cons show ?thesis by simp
    qed
  qed
qed

text \<open>
  C8: a binder that \<^verbatim>\<open>makeStructBinder\<close> returned never makes \<^verbatim>\<open>toArgs\<close> return
  \<^verbatim>\<open>MissingArgError\<close>, whatever the argument value is: every placeholder name was found
  among the field names at construction, so the inner loop of \<^verbatim>\<open>toArgs\<close> finds it again.
\<close>

theorem toArgs_never_missing:
  assumes "makeStructBinder fieldPositions as = Inr b"
  shows "toArgs b arg \<noteq> Inl (MissingArgError n)"
proof -
  have sub: "set (args b) \<subseteq> set (fields' b)"
    using assms by (rule makeStructBinder_Inr_D)
  show ?thesis
    by (cases arg) (auto simp: toArgs_def toArgs_argLoop_not_missing [OF sub] split: option.splits)
qed

theorem toArgs_never_missing_witness:
  "makeStructBinder [''name'', ''id''] [NamedArg ''id'', NamedArg ''name'' :: unit arg]
     = Inr \<lparr>args = [''id'', ''name''], fields' = [''name'', ''id'']\<rparr>
   \<and> toArgs \<lparr>args = [''id'', ''name''], fields' = [''name'', ''id'']\<rparr>
        (Struct [Exported (GoString ''x''), Exported (GoInt 7)])
       \<noteq> (Inl (MissingArgError ''id'') :: unit error + goval option list)"
proof -
  have h: "makeStructBinder [''name'', ''id''] [NamedArg ''id'', NamedArg ''name'' :: unit arg]
             = Inr \<lparr>args = [''id'', ''name''], fields' = [''name'', ''id'']\<rparr>"
    by (simp add: makeStructBinder_def)
  show ?thesis
    using h toArgs_never_missing [OF h] by simp
qed

text \<open>
  What the loop of \<^verbatim>\<open>toArgs\<close> computes on a struct whose fields are all exported and at
  least as many as the placeholders: the values of the first fields in declared order,
  one per placeholder. The placeholder names decide only whether a value is read, not
  which one.
\<close>

lemma toArgs_fieldLoop_exported:
  "n \<in> set fs \<Longrightarrow> i < length vs \<Longrightarrow>
   toArgs_fieldLoop fs n (Struct (map Exported vs)) i = Some (Inr (vs ! i))"
  by (induction fs) auto

lemma toArgs_argLoop_positional:
  "set rest \<subseteq> set (fields' b) \<Longrightarrow> i + length rest \<le> length vs \<Longrightarrow>
   length vals = i + length rest \<Longrightarrow>
   (toArgs_argLoop b (Struct (map Exported vs)) i rest vals :: 'x error + 'v option list)
     = Inr (take i vals @ map Some (take (length rest) (drop i vs)))"
proof (induction rest arbitrary: i vals)
  case Nil
  then show ?case by simp
next
  case (Cons a rest)
  have i: "i < length vs" "i < length vals"
    using Cons.prems by auto
  have loop: "(toArgs_fieldLoop (fields' b) a (Struct (map Exported vs)) i
                 :: ('x error + 'v) option) = Some (Inr (vs ! i))"
    using Cons.prems(1) i(1) by (simp add: toArgs_fieldLoop_exported)
  have step: "(toArgs_argLoop b (Struct (map Exported vs)) (Suc i) rest (vals[i := Some (vs ! i)])
                 :: 'x error + 'v option list)
     = Inr (take (Suc i) (vals[i := Some (vs ! i)])
            @ map Some (take (length rest) (drop (Suc i) vs)))"
    using Cons.prems by (intro Cons.IH) auto
  have t: "take (Suc i) (vals[i := Some (vs ! i)]) = take i vals @ [Some (vs ! i)]"
    using i(2) by (simp add: take_Suc_conv_app_nth)
  have d: "take (length (a # rest)) (drop i vs) = vs ! i # take (length rest) (drop (Suc i) vs)"
    using i(1) by (simp add: Cons_nth_drop_Suc [symmetric])
  show ?case
    by (simp only: toArgs_argLoop.simps loop option.case sum.case step t d list.map append_assoc
          append_Cons append_Nil)
qed

lemma toArgs_positional:
  assumes "makeStructBinder fieldPositions as = Inr b"
    and "length (args b) \<le> length vs"
  shows "(toArgs b (Struct (map Exported vs)) :: 'x error + 'v option list)
           = Inr (map Some (take (length (args b)) vs))"
proof -
  have sub: "set (args b) \<subseteq> set (fields' b)"
    using assms(1) by (rule makeStructBinder_Inr_D)
  show ?thesis
    using toArgs_argLoop_positional [OF sub, of 0 vs "replicate (length (args b)) None"] assms(2)
    by (simp add: toArgs_def)
qed

text \<open>
  C1, evaluated on the specification's own example: placeholders \<^verbatim>\<open>id\<close>, \<^verbatim>\<open>name\<close> and an
  argument whose fields are declared in the order \<^verbatim>\<open>name\<close>, \<^verbatim>\<open>id\<close> and hold
  \<^verbatim>\<open>name = "x"\<close>, \<^verbatim>\<open>id = 7\<close>. The source reads \<^verbatim>\<open>val.Field(index)\<close> with the index of the
  placeholder, so the result is \<^verbatim>\<open>["x", 7]\<close> where the specification expects \<^verbatim>\<open>[7, "x"]\<close>.
\<close>

theorem toArgs_reads_at_placeholder_index:
  "makeStructBinder [''name'', ''id''] [NamedArg ''id'', NamedArg ''name'' :: unit arg]
     = Inr \<lparr>args = [''id'', ''name''], fields' = [''name'', ''id'']\<rparr>
   \<and> toArgs \<lparr>args = [''id'', ''name''], fields' = [''name'', ''id'']\<rparr>
        (Struct [Exported (GoString ''x''), Exported (GoInt 7)])
       = (Inr [Some (GoString ''x''), Some (GoInt 7)] :: unit error + goval option list)"
  by (simp add: makeStructBinder_def toArgs_def)

text \<open>
  C10, evaluated on a repeated placeholder name: placeholders \<^verbatim>\<open>id\<close>, \<^verbatim>\<open>id\<close> and an
  argument type with the single field \<^verbatim>\<open>id\<close>. Construction succeeds, and at the second
  placeholder \<^verbatim>\<open>toArgs\<close> calls \<^verbatim>\<open>val.Field(1)\<close> on a struct with one field.
\<close>

theorem toArgs_repeated_name_out_of_range:
  "makeStructBinder [''id''] [NamedArg ''id'', NamedArg ''id'' :: unit arg]
     = Inr \<lparr>args = [''id'', ''id''], fields' = [''id'']\<rparr>
   \<and> toArgs \<lparr>args = [''id'', ''id''], fields' = [''id'']\<rparr> (Struct [Exported (GoInt 7)])
       = (Inl (Panic FieldIndexOutOfRange) :: unit error + goval option list)"
  by (simp add: makeStructBinder_def toArgs_def)

subsection \<open>Bound statements\<close>

text \<open>
  C2, evaluated on both kinds of handle: the test in \<^verbatim>\<open>InTx\<close> is \<^verbatim>\<open>!ok\<close>. A bound
  statement whose handle is an \<^verbatim>\<open>stdStmt\<close> gets the handle
  \<^verbatim>\<open>errStmt{"stmt is not an stdStmt"}\<close> and nothing is prepared against the transaction;
  one whose handle is an \<^verbatim>\<open>errStmt\<close> gets an \<^verbatim>\<open>stdStmt\<close> made by \<^verbatim>\<open>StmtContext\<close> from
  the nil statement of the zero value. Both \<^verbatim>\<open>BoundStmt.InTx\<close> and
  \<^verbatim>\<open>BoundQueryStmt.InTx\<close> do so.
\<close>

theorem InTx_branch_inverted:
  "stmt (bound_stmt (BoundStmt_InTx StmtContext tx
           \<lparr>bound_stmt = \<lparr>stmt = StdStmt h, exec = ex\<rparr>, stmt_binder = b\<rparr>))
     = ErrStmt ''stmt is not an stdStmt''
   \<and> stmt (bound_stmt (BoundStmt_InTx StmtContext tx
           \<lparr>bound_stmt = \<lparr>stmt = ErrStmt e, exec = ex\<rparr>, stmt_binder = b\<rparr>))
     = StdStmt (StmtContext tx None)
   \<and> stmt (BoundQueryStmt_InTx StmtContext tx
           \<lparr>stmt = StdStmt h, exec = ex, settings = q, query_binder = b\<rparr>)
     = ErrStmt ''stmt is not an stdStmt''
   \<and> stmt (BoundQueryStmt_InTx StmtContext tx
           \<lparr>stmt = ErrStmt e, exec = ex, settings = q, query_binder = b\<rparr>)
     = StdStmt (StmtContext tx None)"
  by (simp add: BoundStmt_InTx_def BoundQueryStmt_InTx_def)

text \<open>
  C7: when \<^verbatim>\<open>toArgs\<close> fails, \<^verbatim>\<open>Exec\<close>, \<^verbatim>\<open>One\<close>, \<^verbatim>\<open>All\<close> and \<^verbatim>\<open>Cursor\<close> return that
  error and leave the state of the database side as it was, whatever the underlying
  operation would do; when \<^verbatim>\<open>toArgs\<close> succeeds they return exactly what the underlying
  operation returns on the statement and the positional values.
\<close>

theorem bound_operations_bind_first:
  "(toArgs (stmt_binder s) arg = Inl (err :: 'x error) \<longrightarrow>
      BoundStmt_Exec Stmt_Exec s arg w = (Inl err, w))
   \<and> ((toArgs (stmt_binder s) arg :: 'x error + 'v option list) = Inr vs \<longrightarrow>
        BoundStmt_Exec Stmt_Exec s arg w = Stmt_Exec (bound_stmt s) vs w)
   \<and> (toArgs (query_binder q) arg = Inl err \<longrightarrow>
        BoundQueryStmt_One QueryStmt_One q arg w = (Inl err, w)
        \<and> BoundQueryStmt_All QueryStmt_All q arg w = (Inl err, w)
        \<and> BoundQueryStmt_Cursor QueryStmt_Cursor q arg w = (Inl err, w))
   \<and> ((toArgs (query_binder q) arg :: 'x error + 'v option list) = Inr vs \<longrightarrow>
        BoundQueryStmt_One QueryStmt_One q arg w = QueryStmt_One (QueryStmt.truncate q) vs w
        \<and> BoundQueryStmt_All QueryStmt_All q arg w = QueryStmt_All (QueryStmt.truncate q) vs w
        \<and> BoundQueryStmt_Cursor QueryStmt_Cursor q arg w = QueryStmt_Cursor (QueryStmt.truncate q) vs w)"
  by (simp add: BoundStmt_Exec_def BoundQueryStmt_One_def BoundQueryStmt_All_def BoundQueryStmt_Cursor_def)

theorem bound_operations_bind_first_witness:
  "toArgs \<lparr>args = [''id''], fields' = [''id'']\<rparr> (Pointer None :: goval rvalue)
     = (Inl ObjectIsNil :: unit error + goval option list)
   \<and> BoundStmt_Exec
        (\<lambda>(st :: (nat, unit, unit) Stmt) vs w. (Inr (length vs) :: unit error + nat, w @ [vs]))
        \<lparr>bound_stmt = \<lparr>stmt = StdStmt (Some 1), exec = OtherExecutor ()\<rparr>,
         stmt_binder = \<lparr>args = [''id''], fields' = [''id'']\<rparr>\<rparr>
        (Pointer None :: goval rvalue) []
       = (Inl ObjectIsNil, [])
   \<and> BoundQueryStmt_One
        (\<lambda>(st :: (nat, unit, unit, unit) QueryStmt) vs w.
           (Inr (length vs) :: unit error + nat, w @ [vs]))
        \<lparr>stmt = StdStmt (Some 1), exec = OtherExecutor (), settings = (),
         query_binder = \<lparr>args = [''id''], fields' = [''id'']\<rparr>\<rparr>
        (Pointer None :: goval rvalue) []
       = (Inl ObjectIsNil, [])
   \<and> toArgs \<lparr>args = [''id''], fields' = [''id'']\<rparr> (Struct [Exported (GoInt 7)])
     = (Inr [Some (GoInt 7)] :: unit error + goval option list)
   \<and> BoundStmt_Exec
        (\<lambda>(st :: (nat, unit, unit) Stmt) vs w. (Inr (length vs) :: unit error + nat, w @ [vs]))
        \<lparr>bound_stmt = \<lparr>stmt = StdStmt (Some 1), exec = OtherExecutor ()\<rparr>,
         stmt_binder = \<lparr>args = [''id''], fields' = [''id'']\<rparr>\<rparr>
        (Struct [Exported (GoInt 7)]) []
       = (Inr 1, [[Some (GoInt 7)]])
   \<and> BoundQueryStmt_All
        (\<lambda>(st :: (nat, unit, unit, unit) QueryStmt) vs w.
           (Inr [length vs] :: unit error + nat list, w @ [vs]))
        \<lparr>stmt = StdStmt (Some 1), exec = OtherExecutor (), settings = (),
         query_binder = \<lparr>args = [''id''], fields' = [''id'']\<rparr>\<rparr>
        (Struct [Exported (GoInt 7)]) []
       = (Inr [1], [[Some (GoInt 7)]])"
proof -
  let ?b = "\<lparr>args = [''id''], fields' = [''id'']\<rparr>"
  let ?s = "\<lparr>bound_stmt = \<lparr>stmt = StdStmt (Some (1::nat)),
                            exec = (OtherExecutor () :: (unit, unit) Executor)\<rparr>,
             stmt_binder = ?b\<rparr>"
  let ?q = "\<lparr>stmt = StdStmt (Some (1::nat)), exec = (OtherExecutor () :: (unit, unit) Executor),
             settings = (), query_binder = ?b\<rparr>"
  let ?exec = "\<lambda>(st :: (nat, unit, unit) Stmt) (vs :: goval option list) (w :: goval option list list).
                 (Inr (length vs) :: unit error + nat, w @ [vs])"
  let ?one = "\<lambda>(st :: (nat, unit, unit, unit) QueryStmt) (vs :: goval option list)
                 (w :: goval option list list). (Inr (length vs) :: unit error + nat, w @ [vs])"
  let ?all = "\<lambda>(st :: (nat, unit, unit, unit) QueryStmt) (vs :: goval option list)
                 (w :: goval option list list). (Inr [length vs] :: unit error + nat list, w @ [vs])"
  have nil: "toArgs ?b (Pointer None :: goval rvalue)
               = (Inl ObjectIsNil :: unit error + goval option list)"
    by (simp add: toArgs_def)
  have ok: "toArgs ?b (Struct [Exported (GoInt 7)])
              = (Inr [Some (GoInt 7)] :: unit error + goval option list)"
    by (simp add: toArgs_def)
  show ?thesis
    using nil ok
      bound_operations_bind_first [of ?s "Pointer None" ObjectIsNil ?exec "[]" "[]" ?q
        ?one ?all ?one]
      bound_operations_bind_first [of ?s "Struct [Exported (GoInt 7)]" ObjectIsNil ?exec "[]"
        "[Some (GoInt 7)]" ?q ?one ?all ?one]
    by simp
qed

subsection \<open>Rendering order of a SELECT query\<close>




text \<open>
  What \<open>render_in_order\<close> returns when no clause fails: the concatenation of the
  descriptor lists of the clauses, where clause \<open>i\<close> was rendered at the offset
  \<open>start\<close> plus the number of descriptors of the clauses before it, on the text left by
  the clause before it.
\<close>

lemma render_in_order_concat:
  "render_in_order E d start cs acc w = (Inr r, w') \<Longrightarrow>
   \<exists>ass ws. length ass = length cs \<and> length ws = Suc (length cs)
     \<and> ws ! 0 = w \<and> ws ! length cs = w' \<and> r = acc @ concat ass
     \<and> (\<forall>i < length cs.
           E (ws ! i) d (start + int (length acc) + int (length (concat (take i ass))))
             (fst (cs ! i)) (fst (snd (cs ! i))) (fst (snd (snd (cs ! i))))
             (snd (snd (snd (cs ! i))))
           = (Inr (ass ! i), ws ! Suc i))"
proof (induction cs arbitrary: acc w)
  case Nil
  then show ?case by (auto intro!: exI [of _ "[]"] exI [of _ "[w]"])
next
  case (Cons c cs)
  obtain e cond pre suf where c: "c = (e, cond, pre, suf)"
    by (cases c) auto
  from Cons.prems c obtain as w1 where
    first: "E w d (start + int (length acc)) e cond pre suf = (Inr as, w1)"
    and rest: "render_in_order E d start cs (acc @ as) w1 = (Inr r, w')"
    by (auto split: prod.splits sum.splits)
  from Cons.IH [OF rest] obtain ass ws where
    ih: "length ass = length cs" "length ws = Suc (length cs)" "ws ! 0 = w1"
      "ws ! length cs = w'" "r = (acc @ as) @ concat ass"
      "\<forall>i < length cs.
           E (ws ! i) d (start + int (length (acc @ as)) + int (length (concat (take i ass))))
             (fst (cs ! i)) (fst (snd (cs ! i))) (fst (snd (snd (cs ! i))))
             (snd (snd (snd (cs ! i))))
           = (Inr (ass ! i), ws ! Suc i)"
    by blast
  let ?ass = "as # ass" and ?ws = "w # ws"
  have "\<forall>i < length (c # cs).
           E (?ws ! i) d (start + int (length acc) + int (length (concat (take i ?ass))))
             (fst ((c # cs) ! i)) (fst (snd ((c # cs) ! i))) (fst (snd (snd ((c # cs) ! i))))
             (snd (snd (snd ((c # cs) ! i))))
           = (Inr (?ass ! i), ?ws ! Suc i)"
  proof (intro allI impI)
    fix i assume "i < length (c # cs)"
    show "E (?ws ! i) d (start + int (length acc) + int (length (concat (take i ?ass))))
             (fst ((c # cs) ! i)) (fst (snd ((c # cs) ! i))) (fst (snd (snd ((c # cs) ! i))))
             (snd (snd (snd ((c # cs) ! i))))
           = (Inr (?ass ! i), ?ws ! Suc i)"
    proof (cases i)
      case 0
      then show ?thesis using first c ih(3) by simp
    next
      case (Suc j)
      with \<open>i < length (c # cs)\<close> have "j < length cs" by simp
      with ih(6) Suc show ?thesis by (simp add: add.assoc)
    qed
  qed
  moreover have "length ?ass = length (c # cs)" "length ?ws = Suc (length (c # cs))"
    "?ws ! 0 = w" "?ws ! length (c # cs) = w'" "r = acc @ concat ?ass"
    using ih by simp_all
  ultimately show ?case by blast
qed



end
